theory Spec2Isabelle
  imports Main "HOL-Library.Word"
begin

section \<open>Python values used by cytty.py\<close>

text \<open>
  A Python \<open>str\<close> is a sequence of Unicode code points, each below \<open>0x110000\<close>; lone
  surrogates (\<open>U+D800\<close> to \<open>U+DFFF\<close>) are legal elements of a \<open>str\<close>. A \<open>bytes\<close>
  object is a sequence of octets. Exceptions are values of \<open>py_error\<close>; a computation
  that may raise returns \<open>py_error + 'a\<close> with \<open>Inl\<close> for the exception.
\<close>

type_synonym byte = "8 word"
type_synonym bytes = "byte list"
type_synonym pystr = "nat list"

datatype py_error =
    UnicodeEncodeError
  | UnicodeDecodeError
  | ValueError
  | OSError
  | AttributeError
  | OtherError

definition lit :: "string \<Rightarrow> pystr" where
  "lit s = map of_char s"

definition is_codepoint :: "nat \<Rightarrow> bool" where
  "is_codepoint c = (c < 0x110000)"

definition is_surrogate :: "nat \<Rightarrow> bool" where
  "is_surrogate c = (0xD800 \<le> c \<and> c \<le> 0xDFFF)"

subsection \<open>\<open>str.encode('utf-8')\<close>\<close>

definition utf8_char :: "nat \<Rightarrow> bytes" where
  "utf8_char c =
     (if c < 0x80 then [of_nat c]
      else if c < 0x800 then [of_nat (0xC0 + c div 64), of_nat (0x80 + c mod 64)]
      else if c < 0x10000 then
        [of_nat (0xE0 + c div 4096), of_nat (0x80 + (c div 64) mod 64), of_nat (0x80 + c mod 64)]
      else
        [of_nat (0xF0 + c div 262144), of_nat (0x80 + (c div 4096) mod 64),
         of_nat (0x80 + (c div 64) mod 64), of_nat (0x80 + c mod 64)])"

text \<open>The strict error handler: a surrogate code point raises \<open>UnicodeEncodeError\<close>.\<close>

fun encode_utf8 :: "pystr \<Rightarrow> py_error + bytes" where
  "encode_utf8 [] = Inr []"
| "encode_utf8 (c # cs) =
     (if is_surrogate c then Inl UnicodeEncodeError
      else case encode_utf8 cs of
             Inl e \<Rightarrow> Inl e
           | Inr bs \<Rightarrow> Inr (utf8_char c @ bs))"

subsection \<open>\<open>bytes.hex()\<close> and \<open>bytes.fromhex\<close>\<close>

definition hex_digit :: "nat \<Rightarrow> nat" where
  "hex_digit n = (if n < 10 then 48 + n else 87 + n)"

definition byte_hex :: "byte \<Rightarrow> pystr" where
  "byte_hex b = [hex_digit (unat b div 16), hex_digit (unat b mod 16)]"

definition bytes_hex :: "bytes \<Rightarrow> pystr" where
  "bytes_hex bs = concat (map byte_hex bs)"

text \<open>The value of a hexadecimal digit character, in either case.\<close>

definition digit_value :: "nat \<Rightarrow> nat option" where
  "digit_value c =
     (if 48 \<le> c \<and> c \<le> 57 then Some (c - 48)
      else if 97 \<le> c \<and> c \<le> 102 then Some (c - 87)
      else if 65 \<le> c \<and> c \<le> 70 then Some (c - 55)
      else None)"

text \<open>ASCII whitespace, which \<open>bytes.fromhex\<close> skips between byte pairs (Python 3.7 and later).\<close>

definition ascii_space :: "nat \<Rightarrow> bool" where
  "ascii_space c = (c = 32 \<or> (9 \<le> c \<and> c \<le> 13))"

text \<open>
  \<open>bytes.fromhex\<close>: whitespace is skipped before a byte, then two hexadecimal digits are
  read; anything else (a lone digit, whitespace inside a pair, any other character)
  raises \<open>ValueError\<close>.
\<close>

fun fromhex :: "pystr \<Rightarrow> py_error + bytes" where
  "fromhex [] = Inr []"
| "fromhex [c] = (if ascii_space c then Inr [] else Inl ValueError)"
| "fromhex (c # d # cs) =
     (if ascii_space c then fromhex (d # cs)
      else case (digit_value c, digit_value d) of
             (Some h, Some l) \<Rightarrow>
               (case fromhex cs of
                  Inl e \<Rightarrow> Inl e
                | Inr bs \<Rightarrow> Inr (of_nat (16 * h + l) # bs))
           | _ \<Rightarrow> Inl ValueError)"

section \<open>UARTFormatSettings\<close>

text \<open>The parity letters \<open>'N'\<close>, \<open>'E'\<close> and \<open>'O'\<close>; the stop-bit values 1, 1.5 and 2.\<close>

datatype parity_setting = Parity_N | Parity_E | Parity_O

datatype stop_bits_setting = One | One_and_half | Two

record uart_format_settings =
  data_bits :: int
  parity :: parity_setting
  stop_bits :: stop_bits_setting
  baud_rate :: int
  add_cr :: bool
  add_lf :: bool
  hex_output :: bool

definition uart_format_settings_init :: uart_format_settings where
  "uart_format_settings_init =
     \<lparr>data_bits = 8, parity = Parity_N, stop_bits = One, baud_rate = 9600,
      add_cr = False, add_lf = True, hex_output = False\<rparr>"

definition format_message :: "uart_format_settings \<Rightarrow> pystr \<Rightarrow> py_error + bytes" where
  "format_message self message =
     (let message =
        (if add_cr self \<and> add_lf self then message @ [13, 10]
         else if add_cr self then message @ [13]
         else if add_lf self then message @ [10]
         else message)
      in case encode_utf8 message of
           Inl e \<Rightarrow> Inl e
         | Inr message \<Rightarrow>
             if hex_output self then fromhex (bytes_hex message) else Inr message)"


section \<open>Further Python library operations\<close>

subsection \<open>\<open>bytes.decode('utf-8')\<close>\<close>

definition continuation :: "byte \<Rightarrow> bool" where
  "continuation b = (0x80 \<le> b \<and> b \<le> 0xBF)"

text \<open>
  The strict decoder accepts exactly the well-formed sequences of the Unicode standard:
  no overlong forms, no surrogates, nothing above \<open>U+10FFFF\<close>. \<open>utf8_next b0 bs\<close> decodes
  the character that starts with \<open>b0\<close> and returns it with the number of bytes of \<open>bs\<close>
  it used.
\<close>

definition utf8_next :: "byte \<Rightarrow> bytes \<Rightarrow> (nat \<times> nat) option" where
  "utf8_next b0 bs =
     (if b0 < 0x80 then Some (unat b0, 0)
      else if 0xC2 \<le> b0 \<and> b0 \<le> 0xDF then
        (case bs of
           b1 # _ \<Rightarrow>
             if continuation b1
             then Some ((unat b0 - 0xC0) * 64 + (unat b1 - 0x80), 1)
             else None
         | _ \<Rightarrow> None)
      else if 0xE0 \<le> b0 \<and> b0 \<le> 0xEF then
        (case bs of
           b1 # b2 # _ \<Rightarrow>
             if (if b0 = 0xE0 then 0xA0 \<le> b1 \<and> b1 \<le> 0xBF
                 else if b0 = 0xED then 0x80 \<le> b1 \<and> b1 \<le> 0x9F
                 else continuation b1) \<and> continuation b2
             then Some ((unat b0 - 0xE0) * 4096 + (unat b1 - 0x80) * 64 + (unat b2 - 0x80), 2)
             else None
         | _ \<Rightarrow> None)
      else if 0xF0 \<le> b0 \<and> b0 \<le> 0xF4 then
        (case bs of
           b1 # b2 # b3 # _ \<Rightarrow>
             if (if b0 = 0xF0 then 0x90 \<le> b1 \<and> b1 \<le> 0xBF
                 else if b0 = 0xF4 then 0x80 \<le> b1 \<and> b1 \<le> 0x8F
                 else continuation b1) \<and> continuation b2 \<and> continuation b3
             then Some ((unat b0 - 0xF0) * 262144 + (unat b1 - 0x80) * 4096
                          + (unat b2 - 0x80) * 64 + (unat b3 - 0x80), 3)
             else None
         | _ \<Rightarrow> None)
      else None)"

fun decode_utf8 :: "bytes \<Rightarrow> py_error + pystr" where
  "decode_utf8 [] = Inr []"
| "decode_utf8 (b0 # bs) =
     (case utf8_next b0 bs of
        None \<Rightarrow> Inl UnicodeDecodeError
      | Some (c, n) \<Rightarrow>
          (case decode_utf8 (drop n bs) of
             Inl e \<Rightarrow> Inl e
           | Inr cs \<Rightarrow> Inr (c # cs)))"

subsection \<open>\<open>str.strip()\<close> and \<open>str.replace(' ', '')\<close>\<close>

text \<open>The characters \<open>str.strip()\<close> removes: those for which \<open>str.isspace\<close> holds.\<close>

definition py_isspace :: "nat \<Rightarrow> bool" where
  "py_isspace c =
     ((9 \<le> c \<and> c \<le> 13) \<or> (28 \<le> c \<and> c \<le> 32) \<or> c = 0x85 \<or> c = 0xA0 \<or> c = 0x1680
      \<or> (0x2000 \<le> c \<and> c \<le> 0x200A) \<or> c = 0x2028 \<or> c = 0x2029 \<or> c = 0x202F
      \<or> c = 0x205F \<or> c = 0x3000)"

definition strip :: "pystr \<Rightarrow> pystr" where
  "strip s = rev (dropWhile py_isspace (rev (dropWhile py_isspace s)))"

definition remove_spaces :: "pystr \<Rightarrow> pystr" where
  "remove_spaces s = filter (\<lambda>c. c \<noteq> 32) s"

subsection \<open>Exception classes\<close>

text \<open>
  \<open>UnicodeEncodeError\<close> and \<open>UnicodeDecodeError\<close> derive from \<open>ValueError\<close>, so
  \<open>except ValueError\<close> catches all three; \<open>except Exception\<close> and a bare \<open>except\<close> catch
  every error of this model.
\<close>

fun is_ValueError :: "py_error \<Rightarrow> bool" where
  "is_ValueError ValueError = True"
| "is_ValueError UnicodeEncodeError = True"
| "is_ValueError UnicodeDecodeError = True"
| "is_ValueError _ = False"

subsection \<open>The socket\<close>

text \<open>
  The TCP socket is the environment. \<open>attempted\<close> lists every payload handed to
  \<open>sendall\<close>; \<open>wire\<close> is what reached the connection. While \<open>alive\<close> holds, \<open>sendall\<close>
  transmits the whole payload; otherwise it raises \<open>OSError\<close> after at most \<open>leak\<close> bytes of
  the payload have gone out.
\<close>

record sock =
  alive :: bool
  leak :: nat
  attempted :: "bytes list"
  wire :: bytes

definition sendall :: "bytes \<Rightarrow> sock \<Rightarrow> py_error option \<times> sock" where
  "sendall payload sk =
     (if alive sk
      then (None, sk\<lparr>attempted := attempted sk @ [payload], wire := wire sk @ payload\<rparr>)
      else (Some OSError,
            sk\<lparr>attempted := attempted sk @ [payload], wire := wire sk @ take (leak sk) payload\<rparr>))"

section \<open>ServerConnectionThread\<close>

text \<open>
  The texts carried by the \<open>connection_error\<close> signal: \<open>f"Socket error: {e}"\<close> and
  \<open>f"Failed to send message: {e}"\<close>.
\<close>

datatype error_text = Socket_error py_error | Failed_to_send_message py_error

datatype signal =
    Connection_success
  | Connection_error error_text
  | Server_message pystr

record server_connection_thread =
  uart_settings :: uart_format_settings
  socket :: "sock option"
  connected :: bool

text \<open>
  \<open>send_message\<close> returns its boolean result, the signals it emitted and the thread
  object after the call.
\<close>

definition send_message ::
  "server_connection_thread \<Rightarrow> pystr \<Rightarrow> bool \<times> signal list \<times> server_connection_thread" where
  "send_message self message =
     (case socket self of
        None \<Rightarrow> (False, [], self)
      | Some sk \<Rightarrow>
          if connected self then
            (case format_message (uart_settings self) message of
               Inl e \<Rightarrow> (False, [Connection_error (Failed_to_send_message e)], self)
             | Inr uart_formatted \<Rightarrow>
                 (case sendall uart_formatted sk of
                    (None, sk') \<Rightarrow> (True, [], self\<lparr>socket := Some sk'\<rparr>)
                  | (Some e, sk') \<Rightarrow>
                      (False, [Connection_error (Failed_to_send_message e)],
                       self\<lparr>socket := Some sk'\<rparr>)))
          else (False, [], self))"

text \<open>
  The receive loop of \<open>run\<close>. What \<open>socket.recv\<close> does, and when the GUI thread calls
  \<open>disconnect\<close>, is given by a list of events, one per pass of the loop.
\<close>

datatype recv_event = Recv bytes | Recv_raises py_error | Disconnect

text \<open>The body of the \<open>try\<close> once \<open>recv\<close> has returned \<open>data\<close>.\<close>

definition on_data :: "bytes \<Rightarrow> py_error + signal list" where
  "on_data data =
     (if data \<noteq> [] then
        (case decode_utf8 data of
           Inr message \<Rightarrow> Inr [Server_message message]
         | Inl e \<Rightarrow>
             if e = UnicodeDecodeError
             then Inr [Server_message (lit ''Binary data: '' @ bytes_hex data)]
             else Inl e)
      else Inr [])"

text \<open>
  The loop returns the exception that leaves it, if any, and the signals emitted. The bare
  \<open>except\<close> turns every exception of the body into \<open>break\<close>.
\<close>

fun receive_loop ::
  "recv_event list \<Rightarrow> server_connection_thread \<Rightarrow> py_error option \<times> signal list" where
  "receive_loop [] self = (None, [])"
| "receive_loop (ev # evs) self =
     (if connected self then
        (case ev of
           Disconnect \<Rightarrow> receive_loop evs (self\<lparr>connected := False\<rparr>)
         | Recv_raises e \<Rightarrow> (None, [])
         | Recv data \<Rightarrow>
             (case on_data data of
                Inl e \<Rightarrow> (None, [])
              | Inr signals \<Rightarrow>
                  (case receive_loop evs self of
                     (raised, later) \<Rightarrow> (raised, signals @ later))))
      else (None, []))"

section \<open>SpeechRecognitionThread\<close>

text \<open>
  What the microphone and the recognition service do in one pass through the \<open>try\<close>
  block: the first call that raises, or the recognised text.
\<close>

datatype attempt =
    Microphone_raises py_error
  | Adjust_raises py_error
  | Wait_timeout
  | Listen_raises py_error
  | Unknown_value
  | Request_error
  | Recognize_raises py_error
  | Recognized pystr

text \<open>
  The texts of the \<open>error_occurred\<close> signal:
  \<open>f"Google Speech Recognition service error: {e}"\<close> and
  \<open>f"Error in speech recognition: {e}"\<close>.
\<close>

datatype speech_error_text = Service_error | Error_in_speech_recognition py_error

text \<open>What the worker does, in order.\<close>

datatype action =
    Open_microphone
  | Adjust_for_ambient_noise
  | Listen
  | Recognize_google
  | Emit_text_recognized pystr
  | Emit_error_occurred speech_error_text
  | Socket_sendall bytes
  | Sleep

record speech_recognition_thread =
  socket_conn :: sock
  speech_uart_settings :: uart_format_settings
  running :: bool
  paused :: bool

definition pause :: "speech_recognition_thread \<Rightarrow> speech_recognition_thread" where
  "pause self = self\<lparr>paused := True\<rparr>"

definition resume :: "speech_recognition_thread \<Rightarrow> speech_recognition_thread" where
  "resume self = self\<lparr>paused := False\<rparr>"

definition stop :: "speech_recognition_thread \<Rightarrow> speech_recognition_thread" where
  "stop self = self\<lparr>running := False\<rparr>"

text \<open>The \<open>try\<close> block of \<open>run\<close>, with its three levels of handlers.\<close>

definition recognise ::
  "attempt \<Rightarrow> speech_recognition_thread \<Rightarrow> action list \<times> speech_recognition_thread" where
  "recognise a self =
     (case a of
        Microphone_raises e \<Rightarrow>
          ([Open_microphone, Emit_error_occurred (Error_in_speech_recognition e)], self)
      | Adjust_raises e \<Rightarrow>
          ([Open_microphone, Adjust_for_ambient_noise,
            Emit_error_occurred (Error_in_speech_recognition e)], self)
      | Wait_timeout \<Rightarrow>
          ([Open_microphone, Adjust_for_ambient_noise, Listen], self)
      | Listen_raises e \<Rightarrow>
          ([Open_microphone, Adjust_for_ambient_noise, Listen,
            Emit_error_occurred (Error_in_speech_recognition e)], self)
      | Unknown_value \<Rightarrow>
          ([Open_microphone, Adjust_for_ambient_noise, Listen, Recognize_google], self)
      | Request_error \<Rightarrow>
          ([Open_microphone, Adjust_for_ambient_noise, Listen, Recognize_google,
            Emit_error_occurred Service_error], self)
      | Recognize_raises e \<Rightarrow>
          ([Open_microphone, Adjust_for_ambient_noise, Listen, Recognize_google,
            Emit_error_occurred (Error_in_speech_recognition e)], self)
      | Recognized text \<Rightarrow>
          (case format_message (speech_uart_settings self) text of
             Inl e \<Rightarrow>
               ([Open_microphone, Adjust_for_ambient_noise, Listen, Recognize_google,
                 Emit_text_recognized text,
                 Emit_error_occurred (Error_in_speech_recognition e)], self)
           | Inr uart_formatted \<Rightarrow>
               (case sendall uart_formatted (socket_conn self) of
                  (None, sk) \<Rightarrow>
                    ([Open_microphone, Adjust_for_ambient_noise, Listen, Recognize_google,
                      Emit_text_recognized text, Socket_sendall uart_formatted],
                     self\<lparr>socket_conn := sk\<rparr>)
                | (Some e, sk) \<Rightarrow>
                    ([Open_microphone, Adjust_for_ambient_noise, Listen, Recognize_google,
                      Emit_text_recognized text, Socket_sendall uart_formatted,
                      Emit_error_occurred (Error_in_speech_recognition e)],
                     self\<lparr>socket_conn := sk\<rparr>))))"

text \<open>One pass of the \<open>while\<close> loop: the body is skipped while \<open>paused\<close>, then the sleep.\<close>

definition loop_body ::
  "attempt \<Rightarrow> speech_recognition_thread \<Rightarrow> action list \<times> speech_recognition_thread" where
  "loop_body a self =
     (if \<not> paused self
      then (case recognise a self of (acts, self') \<Rightarrow> (acts @ [Sleep], self'))
      else ([Sleep], self))"

text \<open>
  The worker runs concurrently with the GUI thread, which may call \<open>pause\<close>, \<open>resume\<close> or
  \<open>stop\<close> at any moment, also while a pass of the loop is blocked in \<open>listen\<close>. A run is
  therefore a list of events: \<open>Step a\<close> is the next step of the worker, the other three are
  the GUI's calls. A step at the head of the loop reads \<open>running\<close> and \<open>paused\<close> (lines 56
  and 57) and either ends the loop or fixes the calls of the pass that begins, \<open>a\<close> being the
  environment's answer for that pass; any other step performs the next call of the pass
  in flight. The flags are not read again before the next pass.
\<close>

datatype event = Step attempt | Gui_pause | Gui_resume | Gui_stop

text \<open>The worker between two steps: the thread object, what remains of the pass in flight,
  and whether the \<open>while\<close> loop has ended.\<close>

record worker =
  thread :: speech_recognition_thread
  in_flight :: "action list"
  exited :: bool

text \<open>The effect of one call of the pass on the thread object: only \<open>sendall\<close> changes it.\<close>

definition perform :: "action \<Rightarrow> speech_recognition_thread \<Rightarrow> speech_recognition_thread" where
  "perform act self =
     (case act of
        Socket_sendall payload \<Rightarrow> self\<lparr>socket_conn := snd (sendall payload (socket_conn self))\<rparr>
      | _ \<Rightarrow> self)"

definition worker_step :: "attempt \<Rightarrow> worker \<Rightarrow> action list \<times> worker" where
  "worker_step a w =
     (if exited w then ([], w)
      else case in_flight w of
             act # rest \<Rightarrow> ([act], w\<lparr>thread := perform act (thread w), in_flight := rest\<rparr>)
           | [] \<Rightarrow>
               if running (thread w)
               then ([], w\<lparr>in_flight := fst (loop_body a (thread w))\<rparr>)
               else ([], w\<lparr>exited := True\<rparr>))"

fun speech_run :: "event list \<Rightarrow> worker \<Rightarrow> action list \<times> worker" where
  "speech_run [] w = ([], w)"
| "speech_run (Step a # evs) w =
     (fst (worker_step a w) @ fst (speech_run evs (snd (worker_step a w))),
      snd (speech_run evs (snd (worker_step a w))))"
| "speech_run (Gui_pause # evs) w = speech_run evs (w\<lparr>thread := pause (thread w)\<rparr>)"
| "speech_run (Gui_resume # evs) w = speech_run evs (w\<lparr>thread := resume (thread w)\<rparr>)"
| "speech_run (Gui_stop # evs) w = speech_run evs (w\<lparr>thread := stop (thread w)\<rparr>)"

section \<open>SpeechRecognitionGUI: manual sending\<close>

text \<open>
  The lines written by \<open>log\<close>: \<open>"Not connected to server"\<close>, \<open>f"Sent: {text}"\<close>,
  \<open>f"Sent: {text} [Hex: {hex_repr}]"\<close> (with the formatted bytes), \<open>"Failed to send message"\<close>,
  \<open>f"Sent hex: {...}"\<close>, the invalid-hex-format notice, and the text of a
  \<open>connection_error\<close> signal, which is connected to \<open>log\<close>.
\<close>

datatype log_line =
    Not_connected_to_server
  | Sent pystr
  | Sent_with_hex pystr bytes
  | Failed_to_send
  | Sent_hex bytes
  | Invalid_hex_format
  | Connection_error_line error_text

text \<open>
  The window's state as far as sending is concerned. \<open>gui_uart_settings\<close> is the window's
  \<open>self.uart_settings\<close>; the thread object holds a reference to the same settings object.
\<close>

record gui =
  server_thread :: "server_connection_thread option"
  gui_uart_settings :: uart_format_settings
  show_hex_checkbox :: bool
  text_input :: pystr
  log_text :: "log_line list"

definition log :: "log_line \<Rightarrow> gui \<Rightarrow> gui" where
  "log message self = self\<lparr>log_text := log_text self @ [message]\<rparr>"

text \<open>Delivery of the thread's signals to the slots the window connected.\<close>

fun deliver :: "signal list \<Rightarrow> gui \<Rightarrow> gui" where
  "deliver [] self = self"
| "deliver (Connection_error t # signals) self = deliver signals (log (Connection_error_line t) self)"
| "deliver (_ # signals) self = deliver signals self"

text \<open>Both operations return the exception that leaves the slot, if any, and the new state.\<close>

definition send_text :: "gui \<Rightarrow> py_error option \<times> gui" where
  "send_text self =
     (case server_thread self of
        None \<Rightarrow> (None, log Not_connected_to_server self)
      | Some th \<Rightarrow>
          if \<not> connected th then (None, log Not_connected_to_server self)
          else
            let text = strip (text_input self) in
            if text \<noteq> [] then
              (case send_message th text of
                 (success, signals, th') \<Rightarrow>
                   let self = deliver signals (self\<lparr>server_thread := Some th'\<rparr>) in
                   if success then
                     (case format_message (gui_uart_settings self) text of
                        Inl e \<Rightarrow> (Some e, self)
                      | Inr formatted_text \<Rightarrow>
                          (None,
                           (log (if show_hex_checkbox self
                                 then Sent_with_hex text formatted_text
                                 else Sent text) self)\<lparr>text_input := []\<rparr>))
                   else (None, log Failed_to_send self))
            else (None, self))"

definition send_hex :: "gui \<Rightarrow> py_error option \<times> gui" where
  "send_hex self =
     (case server_thread self of
        None \<Rightarrow> (None, log Not_connected_to_server self)
      | Some th \<Rightarrow>
          if \<not> connected th then (None, log Not_connected_to_server self)
          else
            let hex_text = strip (text_input self) in
            if hex_text \<noteq> [] then
              let hex_text = remove_spaces hex_text in
              (case fromhex hex_text of
                 Inl e \<Rightarrow>
                   if is_ValueError e then (None, log Invalid_hex_format self) else (Some e, self)
               | Inr byte_data \<Rightarrow>
                   (case socket th of
                      None \<Rightarrow> (Some AttributeError, self)
                    | Some sk \<Rightarrow>
                        (case sendall byte_data sk of
                           (Some e, sk') \<Rightarrow>
                             if is_ValueError e
                             then (None,
                                   log Invalid_hex_format
                                     (self\<lparr>server_thread := Some (th\<lparr>socket := Some sk'\<rparr>)\<rparr>))
                             else (Some e, self\<lparr>server_thread := Some (th\<lparr>socket := Some sk'\<rparr>)\<rparr>)
                         | (None, sk') \<Rightarrow>
                             (None,
                              (log (Sent_hex byte_data)
                                 (self\<lparr>server_thread := Some (th\<lparr>socket := Some sk'\<rparr>)\<rparr>))
                                \<lparr>text_input := []\<rparr>))))
            else (None, self))"

section \<open>Notions used to state the properties\<close>

text \<open>A hexadecimal digit, and the inputs the hex-send operation must reject: ignoring
  ASCII whitespace, an odd number of characters or a character that is not a hexadecimal
  digit.\<close>

definition is_hexdigit :: "nat \<Rightarrow> bool" where
  "is_hexdigit c = (digit_value c \<noteq> None)"

definition hex_invalid :: "pystr \<Rightarrow> bool" where
  "hex_invalid h =
     (odd (length (filter (\<lambda>c. \<not> ascii_space c) h))
      \<or> list_ex (\<lambda>c. \<not> ascii_space c \<and> \<not> is_hexdigit c) h)"

text \<open>The text shown for a received chunk, and the chunks received before the loop ends.\<close>

definition render :: "bytes \<Rightarrow> pystr" where
  "render data =
     (case decode_utf8 data of
        Inr s \<Rightarrow> s
      | Inl e \<Rightarrow> lit ''Binary data: '' @ bytes_hex data)"

fun chunks_before_exit :: "recv_event list \<Rightarrow> bytes list" where
  "chunks_before_exit (Recv data # evs) = data # chunks_before_exit evs"
| "chunks_before_exit _ = []"

text \<open>Concrete states: an open connection, a socket whose writes fail after one byte, the
  window connected with the default settings, a running speech thread, and the worker at
  the head of its loop.\<close>

definition open_sock :: sock where
  "open_sock = \<lparr>alive = True, leak = 0, attempted = [], wire = []\<rparr>"

definition broken_sock :: sock where
  "broken_sock = \<lparr>alive = False, leak = 1, attempted = [], wire = []\<rparr>"

definition open_thread :: server_connection_thread where
  "open_thread =
     \<lparr>uart_settings = uart_format_settings_init, socket = Some open_sock, connected = True\<rparr>"

definition open_gui :: gui where
  "open_gui =
     \<lparr>server_thread = Some open_thread, gui_uart_settings = uart_format_settings_init,
      show_hex_checkbox = False, text_input = [], log_text = []\<rparr>"

definition idle_worker :: speech_recognition_thread where
  "idle_worker =
     \<lparr>socket_conn = open_sock, speech_uart_settings = uart_format_settings_init,
      running = True, paused = False\<rparr>"

definition fresh_worker :: worker where
  "fresh_worker = \<lparr>thread = idle_worker, in_flight = [], exited = False\<rparr>"

text \<open>The result of a fallible encoding with a byte suffix added on success.\<close>

definition appended :: "py_error + bytes \<Rightarrow> bytes \<Rightarrow> py_error + bytes" where
  "appended r t = (case r of Inl e \<Rightarrow> Inl e | Inr bs \<Rightarrow> Inr (bs @ t))"

text \<open>The terminator bytes selected by the two flags, for stating what the formatter appends.\<close>

definition terminator :: "uart_format_settings \<Rightarrow> bytes" where
  "terminator cfg =
     (if add_cr cfg \<and> add_lf cfg then [0x0D, 0x0A]
      else if add_cr cfg then [0x0D]
      else if add_lf cfg then [0x0A]
      else [])"

section \<open>Properties of the message formatter\<close>

lemma encode_utf8_append:
  "encode_utf8 (s @ t) =
     (case encode_utf8 s of
        Inl e \<Rightarrow> Inl e
      | Inr a \<Rightarrow> (case encode_utf8 t of Inl e \<Rightarrow> Inl e | Inr b \<Rightarrow> Inr (a @ b)))"
  by (induction s) (auto split: sum.splits)

lemma encode_utf8_Inl: "encode_utf8 s = Inl e \<longleftrightarrow> e = UnicodeEncodeError \<and> list_ex is_surrogate s"
  by (induction s) (auto split: sum.splits)

lemma encode_utf8_terminators:
  "\<not> is_surrogate 13" "\<not> is_surrogate 10" "utf8_char 13 = [13]" "utf8_char 10 = [10]"
  by (simp_all add: is_surrogate_def utf8_char_def)

lemma digit_value_hex_digit: "n < 16 \<Longrightarrow> digit_value (hex_digit n) = Some n"
  by (auto simp: digit_value_def hex_digit_def)

lemma hex_digit_not_space: "n < 16 \<Longrightarrow> \<not> ascii_space (hex_digit n)"
  by (auto simp: ascii_space_def hex_digit_def)

lemma fromhex_bytes_hex: "fromhex (bytes_hex bs) = Inr bs"
proof (induction bs)
  case Nil
  then show ?case by (simp add: bytes_hex_def)
next
  case (Cons b bs)
  have "unat b < 256" using unsigned_less[of b, where ?'a=nat] by simp
  then have hi: "unat b div 16 < 16" by simp
  have lo: "unat b mod 16 < 16" by simp
  from Cons show ?case
    by (simp add: bytes_hex_def byte_hex_def digit_value_hex_digit[OF hi]
        digit_value_hex_digit[OF lo] hex_digit_not_space[OF hi])
qed

lemma format_message_hex_irrelevant:
  "format_message self message = format_message (self\<lparr>hex_output := h\<rparr>) message"
  by (simp add: format_message_def Let_def fromhex_bytes_hex split: sum.splits)

lemma encode_utf8_Inr: "\<not> list_ex is_surrogate s \<Longrightarrow> \<exists>bs. encode_utf8 s = Inr bs"
  by (induction s) auto

lemma format_message_eq:
  "format_message cfg s =
     (case encode_utf8 s of Inl e \<Rightarrow> Inl e | Inr bs \<Rightarrow> Inr (bs @ terminator cfg))"
  by (simp add: format_message_def Let_def terminator_def encode_utf8_append
      encode_utf8_terminators fromhex_bytes_hex split: sum.splits)

text \<open>
  C1. For every input string and every setting of the flags, \<open>format_message\<close> returns the
  UTF-8 encoding of the input followed by exactly the selected terminator: CR LF when
  both \<open>add_cr\<close> and \<open>add_lf\<close> are set, CR when only \<open>add_cr\<close>, LF when only \<open>add_lf\<close>,
  nothing when neither. This holds whatever \<open>hex_output\<close> is. (When the input has no UTF-8
  encoding, the encoder's exception is the result on both sides.)
\<close>

theorem format_message_terminator:
  "(add_cr cfg \<and> add_lf cfg \<longrightarrow> format_message cfg s = appended (encode_utf8 s) [0x0D, 0x0A]) \<and>
   (add_cr cfg \<and> \<not> add_lf cfg \<longrightarrow> format_message cfg s = appended (encode_utf8 s) [0x0D]) \<and>
   (\<not> add_cr cfg \<and> add_lf cfg \<longrightarrow> format_message cfg s = appended (encode_utf8 s) [0x0A]) \<and>
   (\<not> add_cr cfg \<and> \<not> add_lf cfg \<longrightarrow> format_message cfg s = encode_utf8 s)"
  by (simp add: format_message_def Let_def appended_def encode_utf8_append
      encode_utf8_terminators fromhex_bytes_hex split: sum.splits)

theorem format_message_terminator_witness:
  "format_message \<lparr>data_bits = 8, parity = Parity_N, stop_bits = One, baud_rate = 9600,
      add_cr = True, add_lf = True, hex_output = True\<rparr> [0x68, 0x20AC] =
     Inr [0x68, 0xE2, 0x82, 0xAC, 0x0D, 0x0A] \<and>
   format_message \<lparr>data_bits = 8, parity = Parity_N, stop_bits = One, baud_rate = 9600,
      add_cr = True, add_lf = False, hex_output = False\<rparr> [0x68, 0x20AC] =
     Inr [0x68, 0xE2, 0x82, 0xAC, 0x0D] \<and>
   format_message \<lparr>data_bits = 8, parity = Parity_N, stop_bits = One, baud_rate = 9600,
      add_cr = False, add_lf = True, hex_output = False\<rparr> [0x68, 0x20AC] =
     Inr [0x68, 0xE2, 0x82, 0xAC, 0x0A] \<and>
   format_message \<lparr>data_bits = 8, parity = Parity_N, stop_bits = One, baud_rate = 9600,
      add_cr = False, add_lf = False, hex_output = True\<rparr> [0x68, 0x20AC] =
     Inr [0x68, 0xE2, 0x82, 0xAC]"
  using
    format_message_terminator [of "\<lparr>data_bits = 8, parity = Parity_N, stop_bits = One, baud_rate = 9600,
      add_cr = True, add_lf = True, hex_output = True\<rparr>" "[0x68, 0x20AC]"]
    format_message_terminator [of "\<lparr>data_bits = 8, parity = Parity_N, stop_bits = One, baud_rate = 9600,
      add_cr = True, add_lf = False, hex_output = False\<rparr>" "[0x68, 0x20AC]"]
    format_message_terminator [of "\<lparr>data_bits = 8, parity = Parity_N, stop_bits = One, baud_rate = 9600,
      add_cr = False, add_lf = True, hex_output = False\<rparr>" "[0x68, 0x20AC]"]
    format_message_terminator [of "\<lparr>data_bits = 8, parity = Parity_N, stop_bits = One, baud_rate = 9600,
      add_cr = False, add_lf = False, hex_output = True\<rparr>" "[0x68, 0x20AC]"]
  by (simp add: appended_def is_surrogate_def utf8_char_def)

text \<open>
  C2. Decoding the hex string of any byte sequence gives the byte sequence back, so
  \<open>format_message\<close> with \<open>hex_output\<close> enabled returns what it returns with
  \<open>hex_output\<close> disabled, all other settings being equal.
\<close>

theorem hex_passthrough_is_identity:
  "fromhex (bytes_hex b) = Inr b \<and>
   format_message (cfg\<lparr>hex_output := True\<rparr>) s = format_message (cfg\<lparr>hex_output := False\<rparr>) s"
  using format_message_hex_irrelevant [of cfg s True] format_message_hex_irrelevant [of cfg s False]
  by (simp add: fromhex_bytes_hex)

theorem hex_passthrough_is_identity_witness:
  "fromhex (bytes_hex [0x00, 0xAB, 0xFF]) = Inr [0x00, 0xAB, 0xFF] \<and>
   format_message (uart_format_settings_init\<lparr>hex_output := True\<rparr>) [0x68, 0x69] = Inr [0x68, 0x69, 0x0A] \<and>
   format_message (uart_format_settings_init\<lparr>hex_output := False\<rparr>) [0x68, 0x69] = Inr [0x68, 0x69, 0x0A]"
  using hex_passthrough_is_identity [of "[0x00, 0xAB, 0xFF]" uart_format_settings_init "[0x68, 0x69]"]
  by (simp add: format_message_def uart_format_settings_init_def is_surrogate_def utf8_char_def)

text \<open>
  C3. The parity, stop-bits, baud-rate and data-bits fields do not influence the output:
  two configurations that agree on \<open>add_cr\<close>, \<open>add_lf\<close> and \<open>hex_output\<close> format every
  string identically.
\<close>

theorem format_message_ignores_line_settings:
  assumes "add_cr c1 = add_cr c2" and "add_lf c1 = add_lf c2" and "hex_output c1 = hex_output c2"
  shows "format_message c1 s = format_message c2 s"
  using assms by (simp add: format_message_def Let_def split: sum.splits)

theorem format_message_ignores_line_settings_witness:
  "format_message \<lparr>data_bits = 5, parity = Parity_E, stop_bits = Two, baud_rate = 115200,
      add_cr = True, add_lf = False, hex_output = True\<rparr> [0x4F, 0x4B] =
   format_message \<lparr>data_bits = 8, parity = Parity_O, stop_bits = One_and_half, baud_rate = 1200,
      add_cr = True, add_lf = False, hex_output = True\<rparr> [0x4F, 0x4B]"
  using format_message_ignores_line_settings
    [of "\<lparr>data_bits = 5, parity = Parity_E, stop_bits = Two, baud_rate = 115200,
           add_cr = True, add_lf = False, hex_output = True\<rparr>"
        "\<lparr>data_bits = 8, parity = Parity_O, stop_bits = One_and_half, baud_rate = 1200,
           add_cr = True, add_lf = False, hex_output = True\<rparr>" "[0x4F, 0x4B]"]
  by simp

text \<open>
  C8. \<open>format_message\<close> is not total on Python strings: a string holding a surrogate
  code point has no UTF-8 encoding and \<open>str.encode\<close> raises. With the default settings
  the one-character string \<open>U+D800\<close> raises \<open>UnicodeEncodeError\<close>.
\<close>

theorem format_message_raises_on_surrogate:
  "format_message uart_format_settings_init [0xD800] = Inl UnicodeEncodeError"
  by (simp add: format_message_def uart_format_settings_init_def is_surrogate_def)

text \<open>
  C8, amended. For every configuration, \<open>format_message\<close> returns a byte sequence on every
  string that holds no surrogate code point, and raises \<open>UnicodeEncodeError\<close> (and nothing
  else) on every string that holds one; the hex re-encode never fails.
\<close>

theorem format_message_total_without_surrogates:
  "(\<not> list_ex is_surrogate s \<longrightarrow> (\<exists>bs. format_message cfg s = Inr bs)) \<and>
   (list_ex is_surrogate s \<longrightarrow> format_message cfg s = Inl UnicodeEncodeError) \<and>
   fromhex (bytes_hex b) = Inr b"
proof (intro conjI impI)
  assume "\<not> list_ex is_surrogate s"
  then obtain bs where "encode_utf8 s = Inr bs"
    using encode_utf8_Inr by blast
  then show "\<exists>bs. format_message cfg s = Inr bs"
    by (simp add: format_message_eq)
next
  assume "list_ex is_surrogate s"
  then have "encode_utf8 s = Inl UnicodeEncodeError"
    by (simp add: encode_utf8_Inl)
  then show "format_message cfg s = Inl UnicodeEncodeError"
    by (simp add: format_message_eq)
next
  show "fromhex (bytes_hex b) = Inr b"
    by (rule fromhex_bytes_hex)
qed

theorem format_message_total_without_surrogates_witness:
  "format_message uart_format_settings_init [0x68, 0x69] = Inr [0x68, 0x69, 0x0A] \<and>
   format_message uart_format_settings_init [0x68, 0xDFFF] = Inl UnicodeEncodeError \<and>
   fromhex (bytes_hex [0x0A]) = Inr [0x0A]"
  using
    format_message_total_without_surrogates [of "[0x68, 0x69]" uart_format_settings_init "[0x0A]"]
    format_message_total_without_surrogates [of "[0x68, 0xDFFF]" uart_format_settings_init "[0x0A]"]
  by (simp add: format_message_def uart_format_settings_init_def is_surrogate_def utf8_char_def)

section \<open>Facts about the library operations\<close>

lemmas example_defs = open_sock_def broken_sock_def open_thread_def open_gui_def idle_worker_def
  fresh_worker_def
  uart_format_settings_init_def

lemmas eval_defs = strip_def py_isspace_def remove_spaces_def ascii_space_def digit_value_def
  sendall_def log_def lit_def is_surrogate_def utf8_char_def format_message_def Let_def


subsection \<open>\<open>strip\<close> and the removal of spaces\<close>






lemma strip_suffix_split:
  "dropWhile py_isspace s = strip s @ rev (takeWhile py_isspace (rev (dropWhile py_isspace s)))"
proof -
  let ?d = "dropWhile py_isspace s"
  have "rev (strip s @ rev (takeWhile py_isspace (rev ?d))) = rev ?d"
    by (simp add: strip_def)
  then show ?thesis
    by (simp only: rev_is_rev_conv)
qed

lemma strip_decomposition:
  "\<exists>a b. s = a @ strip s @ b \<and> list_all py_isspace a \<and> list_all py_isspace b"
proof -
  let ?d = "dropWhile py_isspace s"
  let ?b = "rev (takeWhile py_isspace (rev ?d))"
  have "s = takeWhile py_isspace s @ ?d" by simp
  also have "?d = strip s @ ?b" by (rule strip_suffix_split)
  finally have s: "s = takeWhile py_isspace s @ strip s @ ?b" .
  have a: "list_all py_isspace (takeWhile py_isspace s)"
    by (auto simp: list_all_iff dest: set_takeWhileD)
  have b: "list_all py_isspace ?b"
    by (auto simp: list_all_iff dest: set_takeWhileD)
  from s a b show ?thesis by blast
qed

lemma strip_ends:
  assumes ne: "strip s \<noteq> []"
  shows "\<not> py_isspace (hd (strip s)) \<and> \<not> py_isspace (last (strip s))"
proof -
  let ?d = "dropWhile py_isspace s"
  let ?e = "dropWhile py_isspace (rev ?d)"
  have e: "?e \<noteq> []" using ne by (simp add: strip_def)
  then have l: "\<not> py_isspace (hd ?e)" by (rule hd_dropWhile)
  have "last (strip s) = hd ?e" using e by (simp only: strip_def last_rev)
  with l have last: "\<not> py_isspace (last (strip s))" by simp
  have d: "?d \<noteq> []"
  proof
    assume "?d = []"
    then have "?e = dropWhile py_isspace (rev [])" by (simp only:)
    then have "?e = []" by simp
    with e show False by blast
  qed
  then have h: "\<not> py_isspace (hd ?d)" by (rule hd_dropWhile)
  have "?d = strip s @ rev (takeWhile py_isspace (rev ?d))" by (rule strip_suffix_split)
  then have "hd ?d = hd (strip s)" using ne by (metis hd_append2)
  with h last show ?thesis by simp
qed


subsection \<open>What \<open>fromhex\<close> accepts\<close>

lemma hexdigit_not_space: "digit_value c = Some v \<Longrightarrow> \<not> ascii_space c"
  by (auto simp: digit_value_def ascii_space_def split: if_splits)

lemma fromhex_Inl: "fromhex h = Inl e \<Longrightarrow> e = ValueError"
  by (induction h arbitrary: e rule: fromhex.induct)
     (auto split: if_splits option.splits sum.splits)

lemma fromhex_Inr_wellformed:
  "fromhex h = Inr bs \<Longrightarrow>
     even (length (filter (\<lambda>c. \<not> ascii_space c) h))
     \<and> list_all (\<lambda>c. ascii_space c \<or> is_hexdigit c) h"
proof (induction h arbitrary: bs rule: fromhex.induct)
  case 1
  then show ?case by simp
next
  case (2 c)
  then show ?case by (simp split: if_splits)
next
  case (3 c d cs)
  show ?case
  proof (cases "ascii_space c")
    case True
    with 3 show ?thesis by simp
  next
    case False
    with "3.prems" obtain hv lv bs' where
      c: "digit_value c = Some hv" and d: "digit_value d = Some lv" and r: "fromhex cs = Inr bs'"
      by (auto split: option.splits sum.splits)
    from d have nd: "\<not> ascii_space d" by (rule hexdigit_not_space)
    from "3.IH"(2) [OF False _ c d r] have "even (length (filter (\<lambda>c. \<not> ascii_space c) cs))
       \<and> list_all (\<lambda>c. ascii_space c \<or> is_hexdigit c) cs"
      by simp
    with False nd c d show ?thesis by (simp add: is_hexdigit_def)
  qed
qed

lemma fromhex_invalid: "hex_invalid h \<Longrightarrow> fromhex h = Inl ValueError"
proof -
  assume inv: "hex_invalid h"
  show ?thesis
  proof (cases "fromhex h")
    case (Inl e)
    then show ?thesis using fromhex_Inl by blast
  next
    case (Inr bs)
    from fromhex_Inr_wellformed [OF this] inv show ?thesis
      by (auto simp: hex_invalid_def list_all_iff list_ex_iff)
  qed
qed

lemma fromhex_valid:
  "list_all is_hexdigit h \<Longrightarrow> even (length h) \<Longrightarrow> \<exists>bs. fromhex h = Inr bs \<and> 2 * length bs = length h"
proof (induction h rule: fromhex.induct)
  case 1
  then show ?case by simp
next
  case (2 c)
  then show ?case by simp
next
  case (3 c d cs)
  from "3.prems" obtain hv lv where c: "digit_value c = Some hv" and d: "digit_value d = Some lv"
    by (auto simp: is_hexdigit_def)
  from c have nc: "\<not> ascii_space c" by (rule hexdigit_not_space)
  from "3.prems" have "list_all is_hexdigit cs" "even (length cs)" by simp_all
  with "3.IH"(2) [OF nc _ c d] obtain bs where "fromhex cs = Inr bs" "2 * length bs = length cs"
    by auto
  with nc c d show ?case by simp
qed


subsection \<open>Decoding what the encoder produced\<close>

lemma unat_byte: "n < 256 \<Longrightarrow> unat (of_nat n :: byte) = n"
  by (simp add: unat_of_nat)

lemmas byte_nat = word_less_nat_alt word_le_nat_alt word_unat_eq_iff

lemma utf8_next_one: "unat b0 < 0x80 \<Longrightarrow> utf8_next b0 rest = Some (unat b0, 0)"
  by (simp add: utf8_next_def byte_nat)

lemma utf8_next_two:
  "unat b0 = 0xC0 + q \<Longrightarrow> unat b1 = 0x80 + r \<Longrightarrow> 2 \<le> q \<Longrightarrow> q < 32 \<Longrightarrow> r < 64 \<Longrightarrow>
     utf8_next b0 (b1 # rest) = Some (q * 64 + r, 1)"
  by (simp add: utf8_next_def continuation_def byte_nat)

lemma utf8_next_three:
  "unat b0 = 0xE0 + p \<Longrightarrow> unat b1 = 0x80 + q \<Longrightarrow> unat b2 = 0x80 + r \<Longrightarrow>
   p < 16 \<Longrightarrow> q < 64 \<Longrightarrow> r < 64 \<Longrightarrow> (p = 0 \<longrightarrow> 32 \<le> q) \<Longrightarrow> (p = 13 \<longrightarrow> q < 32) \<Longrightarrow>
     utf8_next b0 (b1 # b2 # rest) = Some (p * 4096 + q * 64 + r, 2)"
  by (auto simp: utf8_next_def continuation_def byte_nat)

lemma utf8_next_four:
  "unat b0 = 0xF0 + o' \<Longrightarrow> unat b1 = 0x80 + p \<Longrightarrow> unat b2 = 0x80 + q \<Longrightarrow> unat b3 = 0x80 + r \<Longrightarrow>
   o' < 5 \<Longrightarrow> p < 64 \<Longrightarrow> q < 64 \<Longrightarrow> r < 64 \<Longrightarrow> (o' = 0 \<longrightarrow> 16 \<le> p) \<Longrightarrow> (o' = 4 \<longrightarrow> p < 16) \<Longrightarrow>
     utf8_next b0 (b1 # b2 # b3 # rest) = Some (o' * 262144 + p * 4096 + q * 64 + r, 3)"
  by (auto simp: utf8_next_def continuation_def byte_nat)

lemma utf8_next_utf8_char:
  assumes ns: "\<not> is_surrogate c" and cp: "is_codepoint c"
  shows "\<exists>b0 bs. utf8_char c = b0 # bs \<and> utf8_next b0 (bs @ rest) = Some (c, length bs)"
proof -
  consider (a) "c < 0x80" | (b) "0x80 \<le> c" "c < 0x800" | (c) "0x800 \<le> c" "c < 0x10000"
    | (d) "0x10000 \<le> c" "c < 0x110000"
    using cp by (auto simp: is_codepoint_def) linarith
  then show ?thesis
  proof cases
    case a
    then have "unat (of_nat c :: byte) = c" by (simp add: unat_byte)
    with a show ?thesis
      using utf8_next_one [of "of_nat c" rest] by (simp add: utf8_char_def)
  next
    case b
    define q where "q = c div 64"
    define r where "r = c mod 64"
    have c: "c = q * 64 + r" by (simp add: q_def r_def)
    have q: "2 \<le> q" "q < 32" using b by (simp_all add: q_def)
    have r: "r < 64" by (simp add: r_def)
    have u0: "unat (of_nat (0xC0 + q) :: byte) = 0xC0 + q" by (rule unat_byte) (use q in simp)
    have u1: "unat (of_nat (0x80 + r) :: byte) = 0x80 + r" by (rule unat_byte) (use r in simp)
    have "utf8_next (of_nat (0xC0 + q)) (of_nat (0x80 + r) # rest) = Some (q * 64 + r, 1)"
      by (rule utf8_next_two [OF u0 u1 q r])
    moreover have "utf8_char c = [of_nat (0xC0 + q), of_nat (0x80 + r)]"
      using b by (simp add: utf8_char_def q_def r_def)
    ultimately show ?thesis by (simp add: c [symmetric])
  next
    case c
    define m where "m = c div 64"
    define p where "p = m div 64"
    define q where "q = m mod 64"
    define r where "r = c mod 64"
    have cm: "c = m * 64 + r" by (simp add: m_def r_def)
    have mp: "m = p * 64 + q" by (simp add: p_def q_def)
    have ceq: "c = p * 4096 + q * 64 + r" using cm mp by simp
    have q: "q < 64" by (simp add: q_def)
    have r: "r < 64" by (simp add: r_def)
    have p: "p < 16" using c ceq by linarith
    have lo: "p = 0 \<longrightarrow> 32 \<le> q" using c ceq r by auto
    have hi: "p = 13 \<longrightarrow> q < 32" using ns ceq q r by (auto simp: is_surrogate_def)
    have pd: "c div 4096 = p" by (simp add: p_def m_def div_mult2_eq)
    have qd: "(c div 64) mod 64 = q" by (simp add: q_def m_def)
    have u0: "unat (of_nat (0xE0 + p) :: byte) = 0xE0 + p" by (rule unat_byte) (use p in simp)
    have u1: "unat (of_nat (0x80 + q) :: byte) = 0x80 + q" by (rule unat_byte) (use q in simp)
    have u2: "unat (of_nat (0x80 + r) :: byte) = 0x80 + r" by (rule unat_byte) (use r in simp)
    have "utf8_next (of_nat (0xE0 + p)) (of_nat (0x80 + q) # of_nat (0x80 + r) # rest)
            = Some (p * 4096 + q * 64 + r, 2)"
      by (rule utf8_next_three [OF u0 u1 u2 p q r lo hi])
    moreover have "utf8_char c = [of_nat (0xE0 + p), of_nat (0x80 + q), of_nat (0x80 + r)]"
      using c by (simp add: utf8_char_def pd qd r_def)
    ultimately show ?thesis by (simp add: ceq [symmetric])
  next
    case d
    define m where "m = c div 64"
    define n where "n = m div 64"
    define o' where "o' = n div 64"
    define p where "p = n mod 64"
    define q where "q = m mod 64"
    define r where "r = c mod 64"
    have cm: "c = m * 64 + r" by (simp add: m_def r_def)
    have mn: "m = n * 64 + q" by (simp add: n_def q_def)
    have no: "n = o' * 64 + p" by (simp add: o'_def p_def)
    have ceq: "c = o' * 262144 + p * 4096 + q * 64 + r" using cm mn no by simp
    have p: "p < 64" by (simp add: p_def)
    have q: "q < 64" by (simp add: q_def)
    have r: "r < 64" by (simp add: r_def)
    have o: "o' < 5" using d ceq by linarith
    have lo: "o' = 0 \<longrightarrow> 16 \<le> p" using d ceq q r by auto
    have hi: "o' = 4 \<longrightarrow> p < 16" using d ceq by auto
    have od: "c div 262144 = o'" by (simp add: o'_def n_def m_def div_mult2_eq)
    have d2: "c div 4096 = c div 64 div 64" using div_mult2_eq [of c 64 64] by simp
    have pd: "(c div 4096) mod 64 = p" by (simp only: d2 p_def n_def m_def)
    have qd: "(c div 64) mod 64 = q" by (simp add: q_def m_def)
    have u0: "unat (of_nat (0xF0 + o') :: byte) = 0xF0 + o'" by (rule unat_byte) (use o in simp)
    have u1: "unat (of_nat (0x80 + p) :: byte) = 0x80 + p" by (rule unat_byte) (use p in simp)
    have u2: "unat (of_nat (0x80 + q) :: byte) = 0x80 + q" by (rule unat_byte) (use q in simp)
    have u3: "unat (of_nat (0x80 + r) :: byte) = 0x80 + r" by (rule unat_byte) (use r in simp)
    have "utf8_next (of_nat (0xF0 + o')) (of_nat (0x80 + p) # of_nat (0x80 + q) # of_nat (0x80 + r) # rest)
            = Some (o' * 262144 + p * 4096 + q * 64 + r, 3)"
      by (rule utf8_next_four [OF u0 u1 u2 u3 o p q r lo hi])
    moreover have "utf8_char c =
        [of_nat (0xF0 + o'), of_nat (0x80 + p), of_nat (0x80 + q), of_nat (0x80 + r)]"
      using d by (simp add: utf8_char_def od pd qd r_def)
    ultimately show ?thesis by (simp add: ceq [symmetric])
  qed
qed

lemma decode_utf8_char:
  assumes "\<not> is_surrogate c" and "is_codepoint c"
  shows "decode_utf8 (utf8_char c @ rest) =
           (case decode_utf8 rest of Inl e \<Rightarrow> Inl e | Inr cs \<Rightarrow> Inr (c # cs))"
proof -
  obtain b0 bs where "utf8_char c = b0 # bs" "utf8_next b0 (bs @ rest) = Some (c, length bs)"
    using utf8_next_utf8_char [OF assms] by blast
  then show ?thesis by simp
qed

lemma decode_encode_utf8:
  "encode_utf8 s = Inr data \<Longrightarrow> list_all is_codepoint s \<Longrightarrow> decode_utf8 data = Inr s"
proof (induction s arbitrary: data)
  case Nil
  then show ?case by simp
next
  case (Cons c s)
  from Cons.prems obtain bs where ns: "\<not> is_surrogate c" and e: "encode_utf8 s = Inr bs"
    and d: "data = utf8_char c @ bs"
    by (auto split: if_splits sum.splits)
  from Cons.prems have cp: "is_codepoint c" "list_all is_codepoint s" by simp_all
  from Cons.IH [OF e cp(2)] ns cp(1) d show ?case
    by (simp add: decode_utf8_char)
qed

lemma decode_utf8_Inl: "decode_utf8 bs = Inl e \<Longrightarrow> e = UnicodeDecodeError"
proof (induction bs arbitrary: e rule: decode_utf8.induct)
  case 1
  then show ?case by simp
next
  case (2 b0 bs)
  then show ?case
    by (auto split: option.splits sum.splits prod.splits)
qed


section \<open>Properties of the connection worker\<close>

text \<open>
  C7. \<open>send_message\<close> returns a boolean. When the connection is not open (\<open>connected\<close> is
  false or there is no socket) it returns \<open>False\<close>, emits nothing and leaves the thread
  object, hence the socket, untouched. When it is open: if formatting raises, the error is
  reported through \<open>connection_error\<close>, nothing is written and the result is \<open>False\<close>; if
  the write succeeds the formatted bytes are on the wire and the result is \<open>True\<close>; if the
  write fails the error is reported, the result is \<open>False\<close> and the message is not kept.
\<close>

theorem send_message_result:
  "(\<not> connected self \<or> socket self = None \<longrightarrow> send_message self m = (False, [], self)) \<and>
   (connected self \<and> socket self = Some sk \<and> format_message (uart_settings self) m = Inl e \<longrightarrow>
      send_message self m = (False, [Connection_error (Failed_to_send_message e)], self)) \<and>
   (connected self \<and> socket self = Some sk \<and> format_message (uart_settings self) m = Inr bs \<and> alive sk \<longrightarrow>
      send_message self m =
        (True, [],
         self\<lparr>socket := Some (sk\<lparr>attempted := attempted sk @ [bs], wire := wire sk @ bs\<rparr>)\<rparr>)) \<and>
   (connected self \<and> socket self = Some sk \<and> format_message (uart_settings self) m = Inr bs \<and> \<not> alive sk \<longrightarrow>
      send_message self m =
        (False, [Connection_error (Failed_to_send_message OSError)],
         self\<lparr>socket := Some (sk\<lparr>attempted := attempted sk @ [bs],
                                 wire := wire sk @ take (leak sk) bs\<rparr>)\<rparr>))"
  by (auto simp: send_message_def sendall_def split: option.splits)

theorem send_message_result_witness:
  "send_message (open_thread\<lparr>connected := False\<rparr>) [0x68, 0x69] = (False, [], open_thread\<lparr>connected := False\<rparr>) \<and>
   send_message (open_thread\<lparr>socket := None\<rparr>) [0x68, 0x69] = (False, [], open_thread\<lparr>socket := None\<rparr>) \<and>
   send_message open_thread [0xD800] =
     (False, [Connection_error (Failed_to_send_message UnicodeEncodeError)], open_thread) \<and>
   send_message open_thread [0x68, 0x69] =
     (True, [],
      open_thread\<lparr>socket := Some (open_sock\<lparr>attempted := [[0x68, 0x69, 0x0A]],
                                           wire := [0x68, 0x69, 0x0A]\<rparr>)\<rparr>) \<and>
   send_message (open_thread\<lparr>socket := Some broken_sock\<rparr>) [0x68, 0x69] =
     (False, [Connection_error (Failed_to_send_message OSError)],
      open_thread\<lparr>socket := Some (broken_sock\<lparr>attempted := [[0x68, 0x69, 0x0A]],
                                             wire := [0x68]\<rparr>)\<rparr>)"
  using
    send_message_result [of "open_thread\<lparr>connected := False\<rparr>" "[0x68, 0x69]" open_sock UnicodeEncodeError "[]"]
    send_message_result [of "open_thread\<lparr>socket := None\<rparr>" "[0x68, 0x69]" open_sock UnicodeEncodeError "[]"]
    send_message_result [of open_thread "[0xD800]" open_sock UnicodeEncodeError "[]"]
    send_message_result [of open_thread "[0x68, 0x69]" open_sock UnicodeEncodeError "[0x68, 0x69, 0x0A]"]
    send_message_result [of "open_thread\<lparr>socket := Some broken_sock\<rparr>" "[0x68, 0x69]" broken_sock
      UnicodeEncodeError "[0x68, 0x69, 0x0A]"]
  by (simp add: example_defs eval_defs)

lemma on_data_decoded:
  "data \<noteq> [] \<Longrightarrow> decode_utf8 data = Inr s \<Longrightarrow> on_data data = Inr [Server_message s]"
  by (simp add: on_data_def)

lemma on_data_fallback:
  "data \<noteq> [] \<Longrightarrow> decode_utf8 data = Inl e \<Longrightarrow>
     on_data data = Inr [Server_message (lit ''Binary data: '' @ bytes_hex data)]"
  using decode_utf8_Inl [of data e] by (simp add: on_data_def)

lemma on_data_total: "\<exists>signals. on_data data = Inr signals"
  using decode_utf8_Inl [of data]
  by (cases "decode_utf8 data") (auto simp: on_data_def)

lemma receive_loop_disconnected: "\<not> connected self \<Longrightarrow> receive_loop evs self = (None, [])"
  by (cases evs) simp_all

lemma receive_loop_Recv:
  "receive_loop (Recv data # evs) self =
     (if connected self then
        (case on_data data of
           Inl e \<Rightarrow> (None, [])
         | Inr signals \<Rightarrow> (fst (receive_loop evs self), signals @ snd (receive_loop evs self)))
      else (None, []))"
  by (simp split: sum.splits prod.splits)

lemma receive_loop_never_raises: "fst (receive_loop evs self) = None"
proof (induction evs arbitrary: self)
  case Nil
  then show ?case by simp
next
  case (Cons ev evs)
  show ?case
  proof (cases ev)
    case (Recv data)
    with Cons [of self] show ?thesis
      by (simp add: receive_loop_Recv del: receive_loop.simps split: sum.splits)
  next
    case (Recv_raises e)
    then show ?thesis by simp
  next
    case Disconnect
    then show ?thesis by (simp add: receive_loop_disconnected)
  qed
qed

lemma on_data_render:
  "on_data data = Inr (if data \<noteq> [] then [Server_message (render data)] else [])"
  using decode_utf8_Inl [of data]
  by (cases "decode_utf8 data") (auto simp: on_data_def render_def)

lemma receive_loop_signals:
  "connected self \<Longrightarrow>
     snd (receive_loop evs self) =
       map (\<lambda>data. Server_message (render data))
         (filter (\<lambda>data. data \<noteq> []) (chunks_before_exit evs))"
proof (induction evs)
  case Nil
  then show ?case by simp
next
  case (Cons ev evs)
  show ?case
  proof (cases ev)
    case (Recv data)
    with Cons show ?thesis
      by (simp add: receive_loop_Recv on_data_render del: receive_loop.simps)
  next
    case (Recv_raises e)
    with Cons show ?thesis by simp
  next
    case Disconnect
    with Cons show ?thesis by (simp add: receive_loop_disconnected)
  qed
qed


text \<open>
  C6. A non-empty chunk received from the socket is emitted as one \<open>server_message\<close>: the
  decoded text when the bytes decode as UTF-8 (in particular the UTF-8 encoding of a text
  is emitted as that text), and \<open>"Binary data: "\<close> followed by the hex string of the bytes when
  decoding fails. No exception leaves the receive loop, and up to the first failing \<open>recv\<close>
  or \<open>disconnect\<close> it emits exactly one message for each non-empty chunk, in order.
\<close>

theorem received_chunk_is_decoded_or_hex:
  "(data \<noteq> [] \<and> decode_utf8 data = Inr s \<longrightarrow> on_data data = Inr [Server_message s]) \<and>
   (data \<noteq> [] \<and> decode_utf8 data = Inl e \<longrightarrow>
      on_data data = Inr [Server_message (lit ''Binary data: '' @ bytes_hex data)]) \<and>
   (encode_utf8 t = Inr data \<and> list_all is_codepoint t \<longrightarrow> decode_utf8 data = Inr t) \<and>
   fst (receive_loop evs self) = None \<and>
   (connected self \<longrightarrow>
      snd (receive_loop evs self) =
        map (\<lambda>d. Server_message (render d)) (filter (\<lambda>d. d \<noteq> []) (chunks_before_exit evs)))"
proof (intro conjI impI)
  assume "data \<noteq> [] \<and> decode_utf8 data = Inr s"
  then show "on_data data = Inr [Server_message s]"
    by (simp add: on_data_decoded)
next
  assume "data \<noteq> [] \<and> decode_utf8 data = Inl e"
  then show "on_data data = Inr [Server_message (lit ''Binary data: '' @ bytes_hex data)]"
    using on_data_fallback by blast
next
  assume "encode_utf8 t = Inr data \<and> list_all is_codepoint t"
  then show "decode_utf8 data = Inr t"
    using decode_encode_utf8 by blast
next
  show "fst (receive_loop evs self) = None"
    by (rule receive_loop_never_raises)
next
  assume "connected self"
  then show "snd (receive_loop evs self) =
        map (\<lambda>d. Server_message (render d)) (filter (\<lambda>d. d \<noteq> []) (chunks_before_exit evs))"
    by (rule receive_loop_signals)
qed

theorem received_chunk_is_decoded_or_hex_witness:
  "on_data [0x68, 0xE2, 0x82, 0xAC] = Inr [Server_message [0x68, 0x20AC]] \<and>
   on_data [0xFF, 0x01] = Inr [Server_message (lit ''Binary data: ff01'')] \<and>
   encode_utf8 [0x68, 0x20AC] = Inr [0x68, 0xE2, 0x82, 0xAC] \<and>
   receive_loop [Recv [0x68], Recv [], Recv [0xC0, 0x80], Recv_raises OSError, Recv [0x69]] open_thread =
     (None, [Server_message [0x68], Server_message (lit ''Binary data: c080'')])"
  using
    received_chunk_is_decoded_or_hex [of "[0x68, 0xE2, 0x82, 0xAC]" "[0x68, 0x20AC]" UnicodeDecodeError
      "[0x68, 0x20AC]" "[Recv [0x68], Recv [], Recv [0xC0, 0x80], Recv_raises OSError, Recv [0x69]]" open_thread]
    received_chunk_is_decoded_or_hex [of "[0xFF, 0x01]" "[]" UnicodeDecodeError
      "[]" "[]" open_thread]
  by (simp add: example_defs eval_defs on_data_def utf8_next_def continuation_def bytes_hex_def
      byte_hex_def hex_digit_def is_codepoint_def render_def)

section \<open>Properties of the speech worker\<close>

lemma loop_body_eq:
  "loop_body a self =
     (if \<not> paused self then (fst (recognise a self) @ [Sleep], snd (recognise a self))
      else ([Sleep], self))"
  by (simp add: loop_body_def split: prod.splits)

lemma loop_body_paused: "paused self \<Longrightarrow> loop_body a self = ([Sleep], self)"
  by (simp add: loop_body_eq)

lemma recognise_opens_microphone: "\<exists>acts. fst (recognise a self) = Open_microphone # acts"
  by (cases a) (auto simp: recognise_def sendall_def split: sum.splits option.splits)

lemma loop_body_active:
  "\<not> paused self \<Longrightarrow> \<exists>acts. fst (loop_body a self) = Open_microphone # acts"
  using recognise_opens_microphone [of a self]
  by (auto simp: loop_body_eq)

lemma perform_flags [simp]:
  "running (perform act self) = running self" "paused (perform act self) = paused self"
  by (cases act; simp add: perform_def)+

lemma perform_Sleep [simp]: "perform Sleep self = self"
  by (simp add: perform_def)

lemma speech_run_append:
  "speech_run (xs @ ys) w =
     (fst (speech_run xs w) @ fst (speech_run ys (snd (speech_run xs w))),
      snd (speech_run ys (snd (speech_run xs w))))"
proof (induction xs arbitrary: w)
  case Nil
  then show ?case by simp
next
  case (Cons ev xs)
  then show ?case by (cases ev) simp_all
qed

lemma paused_only_finishes_pass:
  "paused (thread w) \<Longrightarrow> Gui_resume \<notin> set evs \<Longrightarrow>
     \<exists>n sleeps. fst (speech_run evs w) = take n (in_flight w) @ sleeps
                \<and> list_all (\<lambda>act. act = Sleep) sleeps"
proof (induction evs arbitrary: w)
  case Nil
  have "fst (speech_run [] w) = take 0 (in_flight w) @ [] \<and> list_all (\<lambda>act. act = Sleep) []"
    by simp
  then show ?case by blast
next
  case (Cons ev evs)
  note IH = Cons.IH and prems = Cons.prems
  show ?case
  proof (cases ev)
    case (Step a)
    from prems have nr: "Gui_resume \<notin> set evs" by simp
    show ?thesis
    proof (cases "exited w")
      case True
      then have "speech_run (ev # evs) w = speech_run evs w"
        using Step by (simp add: worker_step_def)
      with IH [OF prems(1) nr] show ?thesis by simp
    next
      case False
      show ?thesis
      proof (cases "in_flight w")
        case Nil
        let ?w = "snd (worker_step a w)"
        have acts: "fst (worker_step a w) = []"
          using False Nil by (simp add: worker_step_def)
        have p: "paused (thread ?w)"
          using False Nil prems(1) by (simp add: worker_step_def)
        have fl: "list_all (\<lambda>act. act = Sleep) (in_flight ?w)"
          using False Nil prems(1) by (simp add: worker_step_def loop_body_paused)
        from IH [OF p nr] obtain n sleeps where
          r: "fst (speech_run evs ?w) = take n (in_flight ?w) @ sleeps"
          and s: "list_all (\<lambda>act. act = Sleep) sleeps"
          by blast
        have "list_all (\<lambda>act. act = Sleep) (take n (in_flight ?w))"
          using fl by (auto simp: list_all_iff dest: in_set_takeD)
        with s have all: "list_all (\<lambda>act. act = Sleep) (take n (in_flight ?w) @ sleeps)"
          by simp
        have "fst (speech_run (ev # evs) w) = take 0 (in_flight w) @ (take n (in_flight ?w) @ sleeps)"
          using Step acts r by simp
        with all show ?thesis by blast
      next
        case (Cons act rest)
        let ?w = "snd (worker_step a w)"
        have acts: "fst (worker_step a w) = [act]"
          using False Cons by (simp add: worker_step_def)
        have p: "paused (thread ?w)"
          using False Cons prems(1) by (simp add: worker_step_def)
        have fl: "in_flight ?w = rest"
          using False Cons by (simp add: worker_step_def)
        from IH [OF p nr] obtain n sleeps where
          r: "fst (speech_run evs ?w) = take n rest @ sleeps"
          and s: "list_all (\<lambda>act. act = Sleep) sleeps"
          using fl by auto
        have "fst (speech_run (ev # evs) w) = take (Suc n) (in_flight w) @ sleeps"
          using Step acts r Cons by simp
        with s show ?thesis by blast
      qed
    qed
  next
    case Gui_pause
    with prems IH [of "w\<lparr>thread := pause (thread w)\<rparr>"] show ?thesis
      by (simp add: pause_def)
  next
    case Gui_resume
    with prems show ?thesis by simp
  next
    case Gui_stop
    with prems IH [of "w\<lparr>thread := stop (thread w)\<rparr>"] show ?thesis
      by (simp add: stop_def)
  qed
qed

lemma paused_idle_keeps_socket:
  "paused (thread w) \<Longrightarrow> list_all (\<lambda>act. act = Sleep) (in_flight w) \<Longrightarrow> Gui_resume \<notin> set evs \<Longrightarrow>
     socket_conn (thread (snd (speech_run evs w))) = socket_conn (thread w)"
proof (induction evs arbitrary: w)
  case Nil
  then show ?case by simp
next
  case (Cons ev evs)
  note IH = Cons.IH and prems = Cons.prems
  show ?case
  proof (cases ev)
    case (Step a)
    let ?w = "snd (worker_step a w)"
    have p: "paused (thread ?w)"
      using prems(1) by (simp add: worker_step_def split: list.splits)
    have fl: "list_all (\<lambda>act. act = Sleep) (in_flight ?w)"
      using prems(1,2) by (auto simp: worker_step_def loop_body_paused split: list.splits)
    have sk: "socket_conn (thread ?w) = socket_conn (thread w)"
      using prems(2) by (auto simp: worker_step_def split: list.splits)
    from IH [OF p fl] prems(3) sk Step show ?thesis by simp
  next
    case Gui_pause
    with prems IH [of "w\<lparr>thread := pause (thread w)\<rparr>"] show ?thesis
      by (simp add: pause_def)
  next
    case Gui_resume
    with prems show ?thesis by simp
  next
    case Gui_stop
    with prems IH [of "w\<lparr>thread := stop (thread w)\<rparr>"] show ?thesis
      by (simp add: stop_def)
  qed
qed

lemma worker_keeps_running:
  "\<not> exited w \<Longrightarrow> running (thread w) \<Longrightarrow> Gui_stop \<notin> set evs \<Longrightarrow>
     \<not> exited (snd (speech_run evs w)) \<and> running (thread (snd (speech_run evs w)))"
proof (induction evs arbitrary: w)
  case Nil
  then show ?case by simp
next
  case (Cons ev evs)
  note IH = Cons.IH and prems = Cons.prems
  show ?case
  proof (cases ev)
    case (Step a)
    let ?w = "snd (worker_step a w)"
    have "\<not> exited ?w" "running (thread ?w)"
      using prems(1,2) by (simp_all add: worker_step_def split: list.splits)
    from IH [OF this] prems(3) Step show ?thesis by simp
  next
    case Gui_pause
    with prems IH [of "w\<lparr>thread := pause (thread w)\<rparr>"] show ?thesis
      by (simp add: pause_def)
  next
    case Gui_resume
    with prems IH [of "w\<lparr>thread := resume (thread w)\<rparr>"] show ?thesis
      by (simp add: resume_def)
  next
    case Gui_stop
    with prems show ?thesis by simp
  qed
qed

lemma finish_pass:
  "\<not> exited w \<Longrightarrow> in_flight w = acts \<Longrightarrow>
     fst (speech_run (replicate (length acts) (Step a)) w) = acts
     \<and> in_flight (snd (speech_run (replicate (length acts) (Step a)) w)) = []
     \<and> \<not> exited (snd (speech_run (replicate (length acts) (Step a)) w))
     \<and> running (thread (snd (speech_run (replicate (length acts) (Step a)) w))) = running (thread w)
     \<and> paused (thread (snd (speech_run (replicate (length acts) (Step a)) w))) = paused (thread w)"
proof (induction acts arbitrary: w)
  case Nil
  then show ?case by simp
next
  case (Cons act rest)
  let ?w = "snd (worker_step a w)"
  have st: "worker_step a w = ([act], w\<lparr>thread := perform act (thread w), in_flight := rest\<rparr>)"
    using Cons.prems by (simp add: worker_step_def)
  have "\<not> exited ?w" "in_flight ?w = rest" using st Cons.prems by simp_all
  from Cons.IH [OF this] st show ?case by simp
qed

lemma next_pass_opens_microphone:
  assumes "\<not> exited w" and "running (thread w)"
  shows "fst (speech_run (Gui_resume # replicate (length (in_flight w) + 2) (Step a)) w)
           = in_flight w @ [Open_microphone]"
proof -
  let ?r = "w\<lparr>thread := resume (thread w)\<rparr>"
  let ?n = "length (in_flight w)"
  let ?d = "snd (speech_run (replicate ?n (Step a)) ?r)"
  have r: "\<not> exited ?r" "in_flight ?r = in_flight w" using assms by simp_all
  from finish_pass [OF r, of a] have
    f: "fst (speech_run (replicate ?n (Step a)) ?r) = in_flight w"
    and i: "in_flight ?d = []" and e: "\<not> exited ?d"
    and ru: "running (thread ?d)" and pa: "\<not> paused (thread ?d)"
    using assms by (simp_all add: resume_def)
  obtain acts where acts: "fst (loop_body a (thread ?d)) = Open_microphone # acts"
    using loop_body_active [OF pa] by blast
  have two: "fst (speech_run [Step a, Step a] ?d) = [Open_microphone]"
    using i e ru acts by (simp add: worker_step_def)
  have "replicate (?n + 2) (Step a) = replicate ?n (Step a) @ replicate 2 (Step a)"
    by (rule replicate_add)
  moreover have "replicate 2 (Step a) = [Step a, Step a]"
    by (simp add: numeral_2_eq_2)
  ultimately have "replicate (?n + 2) (Step a) = replicate ?n (Step a) @ [Step a, Step a]"
    by (simp only:)
  then have "speech_run (Gui_resume # replicate (?n + 2) (Step a)) w
        = speech_run (replicate ?n (Step a) @ [Step a, Step a]) ?r"
    by simp
  then show ?thesis
    using f two by (simp add: speech_run_append)
qed


text \<open>The steps of a pass that no call of the GUI interrupts do what \<open>loop_body\<close> does.\<close>

lemma perform_pass:
  "foldl (\<lambda>s act. perform act s) self (fst (loop_body a self)) = snd (loop_body a self)"
  by (cases a)
     (auto simp: loop_body_eq recognise_def perform_def sendall_def split: sum.splits option.splits)

lemma finish_pass_thread:
  "\<not> exited w \<Longrightarrow> in_flight w = acts \<Longrightarrow>
     thread (snd (speech_run (replicate (length acts) (Step a)) w))
       = foldl (\<lambda>s act. perform act s) (thread w) acts"
proof (induction acts arbitrary: w)
  case Nil
  then show ?case by simp
next
  case (Cons act rest)
  let ?w = "snd (worker_step a w)"
  have st: "worker_step a w = ([act], w\<lparr>thread := perform act (thread w), in_flight := rest\<rparr>)"
    using Cons.prems by (simp add: worker_step_def)
  have "\<not> exited ?w" "in_flight ?w = rest" using st Cons.prems by simp_all
  from Cons.IH [OF this] st show ?case by simp
qed

lemma uninterrupted_pass:
  assumes "\<not> exited w" and "in_flight w = []" and "running (thread w)"
  shows "fst (speech_run (replicate (Suc (length (fst (loop_body a (thread w))))) (Step a)) w)
           = fst (loop_body a (thread w))
       \<and> thread (snd (speech_run (replicate (Suc (length (fst (loop_body a (thread w))))) (Step a)) w))
           = snd (loop_body a (thread w))"
proof -
  let ?acts = "fst (loop_body a (thread w))"
  let ?w = "w\<lparr>in_flight := ?acts\<rparr>"
  have st: "worker_step a w = ([], ?w)" using assms by (simp add: worker_step_def)
  have w: "\<not> exited ?w" "in_flight ?w = ?acts" using assms by simp_all
  from finish_pass [OF w, of a] finish_pass_thread [OF w, of a] st show ?thesis
    by (simp add: perform_pass)
qed


text \<open>
  C9. The flag \<open>paused\<close> is read once, at the head of a pass. When \<open>pause\<close> is called while a
  pass is blocked in \<open>listen\<close>, the flag is set and the pass goes on: the utterance is heard,
  the recognizer is called, the text is emitted and the bytes are written to the socket, all
  with \<open>paused\<close> set.
\<close>

theorem pause_lands_in_a_pass:
  "paused (thread (snd (speech_run
     [Step (Recognized [0x68, 0x69]), Step (Recognized [0x68, 0x69]), Step (Recognized [0x68, 0x69]),
      Gui_pause] fresh_worker))) \<and>
   fst (speech_run
     [Step (Recognized [0x68, 0x69]), Step (Recognized [0x68, 0x69]), Step (Recognized [0x68, 0x69]),
      Step (Recognized [0x68, 0x69])]
     (snd (speech_run
        [Step (Recognized [0x68, 0x69]), Step (Recognized [0x68, 0x69]), Step (Recognized [0x68, 0x69]),
         Gui_pause] fresh_worker))) =
     [Listen, Recognize_google, Emit_text_recognized [0x68, 0x69], Socket_sendall [0x68, 0x69, 0x0A]]"
  by (simp add: example_defs eval_defs worker_step_def loop_body_def recognise_def pause_def
      perform_def)

text \<open>
  C9, amended. \<open>pause\<close> sets the flag and leaves \<open>running\<close> as it is; \<open>resume\<close> clears
  the flag. A pass that begins while the flag is set only sleeps. After a call of \<open>pause\<close>,
  whatever the interleaving of worker steps and further \<open>pause\<close> and \<open>stop\<close> calls, and until
  \<open>resume\<close> is called, the worker performs at most the calls that remained of the pass in
  flight and otherwise sleeps; if no pass was in flight it only sleeps and the socket is
  untouched. Pausing does not end the loop: unless \<open>stop\<close> is called the worker stays in it.
  After \<open>resume\<close> the worker finishes what is in flight and the next pass opens the
  microphone.
\<close>

theorem pause_stops_new_passes:
  "paused (pause self) \<and> running (pause self) = running self \<and> \<not> paused (resume self) \<and>
   (paused self \<longrightarrow> loop_body a self = ([Sleep], self)) \<and>
   (Gui_resume \<notin> set evs \<longrightarrow>
      (\<exists>n sleeps. fst (speech_run (Gui_pause # evs) w) = take n (in_flight w) @ sleeps
                 \<and> list_all (\<lambda>act. act = Sleep) sleeps)) \<and>
   (in_flight w = [] \<and> Gui_resume \<notin> set evs \<longrightarrow>
      list_all (\<lambda>act. act = Sleep) (fst (speech_run (Gui_pause # evs) w))
      \<and> socket_conn (thread (snd (speech_run (Gui_pause # evs) w))) = socket_conn (thread w)) \<and>
   (\<not> exited w \<and> running (thread w) \<and> Gui_stop \<notin> set evs \<longrightarrow>
      \<not> exited (snd (speech_run (Gui_pause # evs) w))
      \<and> running (thread (snd (speech_run (Gui_pause # evs) w)))) \<and>
   (\<not> exited w \<and> running (thread w) \<longrightarrow>
      fst (speech_run (Gui_resume # replicate (length (in_flight w) + 2) (Step a)) w)
        = in_flight w @ [Open_microphone])"
proof (intro conjI impI)
  show "paused (pause self)" by (simp add: pause_def)
next
  show "running (pause self) = running self" by (simp add: pause_def)
next
  show "\<not> paused (resume self)" by (simp add: resume_def)
next
  assume "paused self"
  then show "loop_body a self = ([Sleep], self)" by (rule loop_body_paused)
next
  assume nr: "Gui_resume \<notin> set evs"
  have p: "paused (thread (w\<lparr>thread := pause (thread w)\<rparr>))" by (simp add: pause_def)
  from paused_only_finishes_pass [OF p nr]
  show "\<exists>n sleeps. fst (speech_run (Gui_pause # evs) w) = take n (in_flight w) @ sleeps
                 \<and> list_all (\<lambda>act. act = Sleep) sleeps"
    by simp
next
  assume a: "in_flight w = [] \<and> Gui_resume \<notin> set evs"
  have p: "paused (thread (w\<lparr>thread := pause (thread w)\<rparr>))" by (simp add: pause_def)
  from paused_only_finishes_pass [OF p, of evs] a
  show "list_all (\<lambda>act. act = Sleep) (fst (speech_run (Gui_pause # evs) w))"
    by auto
next
  assume a: "in_flight w = [] \<and> Gui_resume \<notin> set evs"
  have p: "paused (thread (w\<lparr>thread := pause (thread w)\<rparr>))" by (simp add: pause_def)
  have f: "list_all (\<lambda>act. act = Sleep) (in_flight (w\<lparr>thread := pause (thread w)\<rparr>))"
    using a by simp
  from paused_idle_keeps_socket [OF p f, of evs] a
  show "socket_conn (thread (snd (speech_run (Gui_pause # evs) w))) = socket_conn (thread w)"
    by (simp add: pause_def)
next
  assume a: "\<not> exited w \<and> running (thread w) \<and> Gui_stop \<notin> set evs"
  then have "\<not> exited (w\<lparr>thread := pause (thread w)\<rparr>)"
    "running (thread (w\<lparr>thread := pause (thread w)\<rparr>))" "Gui_stop \<notin> set evs"
    by (simp_all add: pause_def)
  from worker_keeps_running [OF this]
  show "\<not> exited (snd (speech_run (Gui_pause # evs) w))" by simp
next
  assume a: "\<not> exited w \<and> running (thread w) \<and> Gui_stop \<notin> set evs"
  then have "\<not> exited (w\<lparr>thread := pause (thread w)\<rparr>)"
    "running (thread (w\<lparr>thread := pause (thread w)\<rparr>))" "Gui_stop \<notin> set evs"
    by (simp_all add: pause_def)
  from worker_keeps_running [OF this]
  show "running (thread (snd (speech_run (Gui_pause # evs) w)))" by simp
next
  assume "\<not> exited w \<and> running (thread w)"
  then show "fst (speech_run (Gui_resume # replicate (length (in_flight w) + 2) (Step a)) w)
        = in_flight w @ [Open_microphone]"
    using next_pass_opens_microphone by blast
qed

theorem pause_stops_new_passes_witness:
  "paused (pause idle_worker) \<and>
   loop_body (Recognized [0x68, 0x69]) (pause idle_worker) = ([Sleep], pause idle_worker) \<and>
   fst (speech_run
          [Gui_pause, Step (Recognized [0x68, 0x69]), Step (Recognized [0x68, 0x69]),
           Step (Recognized [0x68, 0x69]), Step (Recognized [0x68, 0x69]),
           Step (Recognized [0x68, 0x69])] fresh_worker) = [Sleep, Sleep] \<and>
   socket_conn (thread (snd (speech_run
          [Gui_pause, Step (Recognized [0x68, 0x69]), Step (Recognized [0x68, 0x69]),
           Step (Recognized [0x68, 0x69]), Step (Recognized [0x68, 0x69]),
           Step (Recognized [0x68, 0x69])] fresh_worker))) = open_sock \<and>
   \<not> exited (snd (speech_run
          [Gui_pause, Step (Recognized [0x68, 0x69]), Step (Recognized [0x68, 0x69]),
           Step (Recognized [0x68, 0x69]), Step (Recognized [0x68, 0x69]),
           Step (Recognized [0x68, 0x69])] fresh_worker)) \<and>
   fst (speech_run
          [Gui_pause, Step Wait_timeout, Step Wait_timeout, Step Wait_timeout, Step Wait_timeout,
           Step Wait_timeout, Step Wait_timeout, Step Wait_timeout]
          (snd (speech_run
             [Step (Recognized [0x68, 0x69]), Step (Recognized [0x68, 0x69]),
              Step (Recognized [0x68, 0x69])] fresh_worker))) =
     [Listen, Recognize_google, Emit_text_recognized [0x68, 0x69],
      Socket_sendall [0x68, 0x69, 0x0A], Sleep, Sleep] \<and>
   fst (speech_run [Gui_resume, Step (Recognized [0x68, 0x69]), Step (Recognized [0x68, 0x69])]
          fresh_worker) = [Open_microphone]"
  using
    pause_stops_new_passes [where self = "pause idle_worker" and a = "Recognized [0x68, 0x69]"
      and w = fresh_worker
      and evs = "[Step (Recognized [0x68, 0x69]), Step (Recognized [0x68, 0x69]),
           Step (Recognized [0x68, 0x69]), Step (Recognized [0x68, 0x69]),
           Step (Recognized [0x68, 0x69])]"]
    pause_stops_new_passes [where self = idle_worker and a = Wait_timeout
      and w = "snd (speech_run
             [Step (Recognized [0x68, 0x69]), Step (Recognized [0x68, 0x69]),
              Step (Recognized [0x68, 0x69])] fresh_worker)"
      and evs = "[Step Wait_timeout, Step Wait_timeout, Step Wait_timeout, Step Wait_timeout,
           Step Wait_timeout, Step Wait_timeout, Step Wait_timeout]"]
  by (simp add: example_defs eval_defs worker_step_def loop_body_def recognise_def pause_def
      resume_def perform_def numeral_2_eq_2)

section \<open>Properties of manual sending\<close>

lemma server_thread_log [simp]: "server_thread (log l g) = server_thread g"
  by (simp add: log_def)

lemma text_input_log [simp]: "text_input (log l g) = text_input g"
  by (simp add: log_def)

lemma log_text_log [simp]: "log_text (log l g) = log_text g @ [l]"
  by (simp add: log_def)

lemma server_thread_deliver [simp]: "server_thread (deliver sigs g) = server_thread g"
  by (induction sigs g rule: deliver.induct) simp_all

lemma text_input_deliver [simp]: "text_input (deliver sigs g) = text_input g"
  by (induction sigs g rule: deliver.induct) simp_all




text \<open>
  C5. The claim counts as invalid every input that, once its spaces are removed, has odd
  length or holds a character that is not a hexadecimal digit. The input \<open>"AB"\<close> followed by
  a newline is invalid in that sense, yet \<open>strip\<close> removes the newline first, so the byte AB is
  written and the field is cleared.
\<close>

theorem send_hex_accepts_trailing_newline:
  "odd (length (remove_spaces [0x41, 0x42, 0x0A])) \<and> digit_value 0x0A = None \<and>
   send_hex (open_gui\<lparr>text_input := [0x41, 0x42, 0x0A]\<rparr>) =
     (None,
      open_gui\<lparr>server_thread :=
                  Some (open_thread\<lparr>socket := Some (open_sock\<lparr>attempted := [[0xAB]], wire := [0xAB]\<rparr>)\<rparr>),
               text_input := [], log_text := [Sent_hex [0xAB]]\<rparr>)"
  by (simp add: example_defs eval_defs send_hex_def)

text \<open>
  C5, amended. With the connection open, let \<open>t\<close> be the input without its leading and
  trailing whitespace and \<open>h\<close> be \<open>t\<close> without its spaces. If \<open>t\<close> is empty nothing happens.
  If \<open>t\<close> is not empty and \<open>bytes.fromhex\<close> rejects \<open>h\<close>, nothing is handed to the socket, the
  invalid-format line is logged and the field keeps its contents; \<open>fromhex\<close> rejects \<open>h\<close>
  whenever \<open>h\<close>, ignoring ASCII whitespace, has an odd number of characters or holds a
  character that is not a hexadecimal digit. If \<open>t\<close> is not empty, \<open>fromhex\<close> accepts \<open>h\<close> and
  the write succeeds, the decoded bytes are written, the send is logged and the field is
  cleared; \<open>fromhex\<close> accepts every \<open>h\<close> made of an even number of hexadecimal digits.
\<close>

theorem send_hex_validation:
  assumes "server_thread self = Some th" and "connected th" and "socket th = Some sk"
  shows
    "(strip (text_input self) = [] \<longrightarrow> send_hex self = (None, self)) \<and>
     (strip (text_input self) \<noteq> [] \<and> fromhex (remove_spaces (strip (text_input self))) = Inl e \<longrightarrow>
        send_hex self = (None, log Invalid_hex_format self)) \<and>
     (strip (text_input self) \<noteq> [] \<and> fromhex (remove_spaces (strip (text_input self))) = Inr bs
        \<and> alive sk \<longrightarrow>
        send_hex self =
          (None,
           (log (Sent_hex bs)
              (self\<lparr>server_thread :=
                 Some (th\<lparr>socket :=
                   Some (sk\<lparr>attempted := attempted sk @ [bs], wire := wire sk @ bs\<rparr>)\<rparr>)\<rparr>))
             \<lparr>text_input := []\<rparr>)) \<and>
     (hex_invalid (remove_spaces (strip (text_input self))) \<longrightarrow>
        fromhex (remove_spaces (strip (text_input self))) = Inl ValueError) \<and>
     (list_all is_hexdigit (remove_spaces (strip (text_input self)))
        \<and> even (length (remove_spaces (strip (text_input self)))) \<longrightarrow>
        (\<exists>bs. fromhex (remove_spaces (strip (text_input self))) = Inr bs
              \<and> 2 * length bs = length (remove_spaces (strip (text_input self)))))"
proof (intro conjI impI)
  assume "strip (text_input self) = []"
  with assms show "send_hex self = (None, self)"
    by (simp add: send_hex_def)
next
  assume a: "strip (text_input self) \<noteq> [] \<and> fromhex (remove_spaces (strip (text_input self))) = Inl e"
  then have "e = ValueError" using fromhex_Inl by blast
  with a assms show "send_hex self = (None, log Invalid_hex_format self)"
    by (simp add: send_hex_def Let_def)
next
  assume "strip (text_input self) \<noteq> [] \<and> fromhex (remove_spaces (strip (text_input self))) = Inr bs
        \<and> alive sk"
  with assms show "send_hex self =
          (None,
           (log (Sent_hex bs)
              (self\<lparr>server_thread :=
                 Some (th\<lparr>socket :=
                   Some (sk\<lparr>attempted := attempted sk @ [bs], wire := wire sk @ bs\<rparr>)\<rparr>)\<rparr>))
             \<lparr>text_input := []\<rparr>)"
    by (simp add: send_hex_def Let_def sendall_def)
next
  assume "hex_invalid (remove_spaces (strip (text_input self)))"
  then show "fromhex (remove_spaces (strip (text_input self))) = Inl ValueError"
    by (rule fromhex_invalid)
next
  assume "list_all is_hexdigit (remove_spaces (strip (text_input self)))
        \<and> even (length (remove_spaces (strip (text_input self))))"
  then show "\<exists>bs. fromhex (remove_spaces (strip (text_input self))) = Inr bs
              \<and> 2 * length bs = length (remove_spaces (strip (text_input self)))"
    using fromhex_valid by blast
qed

theorem send_hex_validation_witness:
  "send_hex (open_gui\<lparr>text_input := [0x20, 0x0A]\<rparr>) = (None, open_gui\<lparr>text_input := [0x20, 0x0A]\<rparr>) \<and>
   hex_invalid (remove_spaces (strip (lit ''AB C''))) \<and>
   send_hex (open_gui\<lparr>text_input := lit ''AB C''\<rparr>) =
     (None, open_gui\<lparr>text_input := lit ''AB C'', log_text := [Invalid_hex_format]\<rparr>) \<and>
   hex_invalid (remove_spaces (strip (lit ''ABXY''))) \<and>
   send_hex (open_gui\<lparr>text_input := lit ''ABXY''\<rparr>) =
     (None, open_gui\<lparr>text_input := lit ''ABXY'', log_text := [Invalid_hex_format]\<rparr>) \<and>
   list_all is_hexdigit (remove_spaces (strip (lit '' ab CD ''))) \<and>
   send_hex (open_gui\<lparr>text_input := lit '' ab CD ''\<rparr>) =
     (None,
      open_gui\<lparr>server_thread :=
                  Some (open_thread\<lparr>socket := Some (open_sock\<lparr>attempted := [[0xAB, 0xCD]],
                                                             wire := [0xAB, 0xCD]\<rparr>)\<rparr>),
               text_input := [], log_text := [Sent_hex [0xAB, 0xCD]]\<rparr>)"
  using
    send_hex_validation [of "open_gui\<lparr>text_input := [0x20, 0x0A]\<rparr>" open_thread open_sock ValueError "[]"]
    send_hex_validation [of "open_gui\<lparr>text_input := lit ''AB C''\<rparr>" open_thread open_sock ValueError "[]"]
    send_hex_validation [of "open_gui\<lparr>text_input := lit ''ABXY''\<rparr>" open_thread open_sock ValueError "[]"]
    send_hex_validation [of "open_gui\<lparr>text_input := lit '' ab CD ''\<rparr>" open_thread open_sock ValueError
      "[0xAB, 0xCD]"]
  by (simp add: example_defs eval_defs send_hex_def hex_invalid_def is_hexdigit_def)

text \<open>
  C10. With no connection, the manual text-send operation logs \<open>"Not connected to server"\<close>
  even when the input is blank: the claim that nothing is logged for a blank input fails
  there.
\<close>

theorem send_text_logs_when_not_connected:
  "strip [0x20, 0x20] = [] \<and>
   send_text (open_gui\<lparr>server_thread := None, text_input := [0x20, 0x20]\<rparr>) =
     (None, open_gui\<lparr>server_thread := None, text_input := [0x20, 0x20],
                     log_text := [Not_connected_to_server]\<rparr>)"
  by (simp add: example_defs eval_defs send_text_def)

text \<open>
  C10, amended. Without an open connection the operation logs \<open>"Not connected to server"\<close>
  and does nothing else, whatever the input. With an open connection, an input that is
  empty or only whitespace changes nothing: nothing is written, nothing is logged, the
  field is unchanged. Otherwise the message handed to \<open>send_message\<close> is the input without
  its leading and trailing whitespace, those being the longest runs of whitespace at
  either end.
\<close>

theorem send_text_strips_and_skips_blank:
  "(server_thread self = None \<or> (\<exists>th. server_thread self = Some th \<and> \<not> connected th) \<longrightarrow>
      send_text self = (None, log Not_connected_to_server self)) \<and>
   (server_thread self = Some th \<and> connected th \<and> strip (text_input self) = [] \<longrightarrow>
      send_text self = (None, self)) \<and>
   (server_thread self = Some th \<and> connected th \<and> strip (text_input self) \<noteq> [] \<longrightarrow>
      server_thread (snd (send_text self))
        = Some (snd (snd (send_message th (strip (text_input self)))))) \<and>
   (\<exists>a b. text_input self = a @ strip (text_input self) @ b
          \<and> list_all py_isspace a \<and> list_all py_isspace b) \<and>
   (strip (text_input self) \<noteq> [] \<longrightarrow>
      \<not> py_isspace (hd (strip (text_input self))) \<and> \<not> py_isspace (last (strip (text_input self))))"
proof (intro conjI impI)
  assume "server_thread self = None \<or> (\<exists>th. server_thread self = Some th \<and> \<not> connected th)"
  then show "send_text self = (None, log Not_connected_to_server self)"
    by (auto simp: send_text_def)
next
  assume "server_thread self = Some th \<and> connected th \<and> strip (text_input self) = []"
  then show "send_text self = (None, self)"
    by (simp add: send_text_def)
next
  assume "server_thread self = Some th \<and> connected th \<and> strip (text_input self) \<noteq> []"
  then show "server_thread (snd (send_text self))
        = Some (snd (snd (send_message th (strip (text_input self)))))"
    by (simp add: send_text_def Let_def split: prod.splits sum.splits)
next
  show "\<exists>a b. text_input self = a @ strip (text_input self) @ b
          \<and> list_all py_isspace a \<and> list_all py_isspace b"
    by (rule strip_decomposition)
next
  assume "strip (text_input self) \<noteq> []"
  then show "\<not> py_isspace (hd (strip (text_input self)))"
    using strip_ends by blast
next
  assume "strip (text_input self) \<noteq> []"
  then show "\<not> py_isspace (last (strip (text_input self)))"
    using strip_ends by blast
qed

theorem send_text_strips_and_skips_blank_witness:
  "send_text (open_gui\<lparr>server_thread := None, text_input := [0x68]\<rparr>) =
     (None, open_gui\<lparr>server_thread := None, text_input := [0x68],
                     log_text := [Not_connected_to_server]\<rparr>) \<and>
   send_text (open_gui\<lparr>text_input := [0x20, 0x09, 0x0A]\<rparr>) =
     (None, open_gui\<lparr>text_input := [0x20, 0x09, 0x0A]\<rparr>) \<and>
   strip [0x20, 0x68, 0x69, 0x0A] = [0x68, 0x69] \<and>
   server_thread (snd (send_text (open_gui\<lparr>text_input := [0x20, 0x68, 0x69, 0x0A]\<rparr>))) =
     Some (open_thread\<lparr>socket := Some (open_sock\<lparr>attempted := [[0x68, 0x69, 0x0A]],
                                                    wire := [0x68, 0x69, 0x0A]\<rparr>)\<rparr>)"
  using
    send_text_strips_and_skips_blank [of "open_gui\<lparr>server_thread := None, text_input := [0x68]\<rparr>" open_thread]
    send_text_strips_and_skips_blank [of "open_gui\<lparr>text_input := [0x20, 0x09, 0x0A]\<rparr>" open_thread]
    send_text_strips_and_skips_blank [of "open_gui\<lparr>text_input := [0x20, 0x68, 0x69, 0x0A]\<rparr>" open_thread]
  by (simp add: example_defs eval_defs send_text_def send_message_def)

end
